theory Spec2Isabelle
  imports Complex_Main
begin

section \<open>Number values\<close>

text \<open>
  The positions of a node are JavaScript Numbers (IEEE 754 binary64). Only non-negative
  values occur in \<open>addNode\<close>: \<open>Math.random()\<close>, the literal \<open>500\<close> and their product.
  A finite non-negative Number is an integer significand \<open>m\<close> and an exponent \<open>e\<close>, with
  value \<open>m * 2^e\<close>; a binary64 value has \<open>m < 2^53\<close> and \<open>e \<ge> -1074\<close> and lies below
  \<open>2^1024\<close>.
\<close>

datatype number = Finite nat int | Infinity | NaN

definition val :: "nat \<Rightarrow> int \<Rightarrow> rat" where
  "val m e = of_nat m * power_int 2 e"

fun bit_length :: "nat \<Rightarrow> nat" where
  "bit_length n = (if n = 0 then 0 else Suc (bit_length (n div 2)))"

declare bit_length.simps [simp del]

text \<open>Dropping the \<open>k\<close> low bits of \<open>m\<close>, to nearest, ties to the even neighbour.\<close>

definition round_half_even :: "nat \<Rightarrow> nat \<Rightarrow> nat" where
  "round_half_even m k =
     (let q = m div 2 ^ k; r = m mod 2 ^ k; h = 2 ^ (k - 1)
      in if r < h then q else if h < r then q + 1 else if even q then q else q + 1)"

text \<open>
  A rounded significand of \<open>2^53\<close> is renormalised; a result of \<open>2^1024\<close> or more is
  \<open>Infinity\<close>.
\<close>

definition pack :: "nat \<Rightarrow> int \<Rightarrow> number" where
  "pack m e =
     (let (m', e') = (if m = 2 ^ 53 then (2 ^ 52, e + 1) else (m, e))
      in if power_int 2 1024 \<le> val m' e' then Infinity else Finite m' e')"

text \<open>
  Rounding the exact value \<open>m * 2^e\<close> to binary64: the significand keeps 53 bits, and
  no bit below \<open>2^-1074\<close> (the subnormal range).
\<close>

definition round_double :: "nat \<Rightarrow> int \<Rightarrow> number" where
  "round_double m e =
     (let k = max (int (bit_length m) - 53) (- 1074 - e)
      in if k \<le> 0 then pack m e else pack (round_half_even m (nat k)) (e + k))"

fun is_zero :: "number \<Rightarrow> bool" where
  "is_zero (Finite m e) = (m = 0)"
| "is_zero _ = False"

text \<open>The operator \<open>*\<close> on non-negative Numbers: the exact product, rounded.\<close>

fun fmul :: "number \<Rightarrow> number \<Rightarrow> number" where
  "fmul (Finite m1 e1) (Finite m2 e2) = round_double (m1 * m2) (e1 + e2)"
| "fmul NaN _ = NaN"
| "fmul _ NaN = NaN"
| "fmul Infinity b = (if is_zero b then NaN else Infinity)"
| "fmul a Infinity = (if is_zero a then NaN else Infinity)"

fun is_double :: "number \<Rightarrow> bool" where
  "is_double (Finite m e) = (m < 2 ^ 53 \<and> - 1074 \<le> e \<and> val m e < power_int 2 1024)"
| "is_double _ = True"

text \<open>\<open>in_range lo hi a\<close>: the Number \<open>a\<close> is finite and \<open>lo \<le> a < hi\<close>.\<close>

fun in_range :: "rat \<Rightarrow> rat \<Rightarrow> number \<Rightarrow> bool" where
  "in_range lo hi (Finite m e) = (lo \<le> val m e \<and> val m e < hi)"
| "in_range lo hi _ = False"

text \<open>
  What \<open>Math.random()\<close> may return (ECMAScript): a Number greater than or equal to 0 and
  strictly less than 1.
\<close>

definition Math_random_result :: "number \<Rightarrow> bool" where
  "Math_random_result r = (is_double r \<and> in_range 0 1 r)"

section \<open>Integers in template literals\<close>

text \<open>
  \<open>`${Date.now()}`\<close> and \<open>`Step ${nodes.length + 1}`\<close> convert an integral Number to its
  decimal digits, with a leading minus sign when it is negative.
\<close>

definition digit :: "nat \<Rightarrow> char" where
  "digit d = ''0123456789'' ! d"

fun string_of_nat :: "nat \<Rightarrow> string" where
  "string_of_nat n =
     (if n < 10 then [digit n] else string_of_nat (n div 10) @ [digit (n mod 10)])"

declare string_of_nat.simps [simp del]

definition string_of_int :: "int \<Rightarrow> string" where
  "string_of_int i =
     (if i < 0 then CHR ''-'' # string_of_nat (nat (- i)) else string_of_nat (nat i))"

section \<open>The graph model\<close>

record CustomNodeData =
  label :: string

record XYPosition =
  pos_x :: number
  pos_y :: number

record Node =
  node_id :: string
  node_type :: string
  position :: XYPosition
  data :: CustomNodeData

text \<open>
  The seeded edges carry neither handles nor a type; an absent, \<open>null\<close> or
  \<open>undefined\<close> property is \<open>None\<close>.
\<close>

record Edge =
  edge_id :: string
  source :: string
  target :: string
  sourceHandle :: "string option"
  targetHandle :: "string option"
  edge_type :: "string option"

record Connection =
  c_source :: "string option"
  c_target :: "string option"
  c_sourceHandle :: "string option"
  c_targetHandle :: "string option"

text \<open>The initial values of the two \<open>useState\<close> cells of \<open>FlowchartMaker\<close>.\<close>

definition initialNodes :: "Node list" where
  "initialNodes =
     [\<lparr>node_id = ''1'', node_type = ''custom'',
       position = \<lparr>pos_x = Finite 250 0, pos_y = Finite 5 0\<rparr>, data = \<lparr>label = ''Start''\<rparr>\<rparr>,
      \<lparr>node_id = ''2'', node_type = ''custom'',
       position = \<lparr>pos_x = Finite 250 0, pos_y = Finite 100 0\<rparr>, data = \<lparr>label = ''Process''\<rparr>\<rparr>,
      \<lparr>node_id = ''3'', node_type = ''custom'',
       position = \<lparr>pos_x = Finite 250 0, pos_y = Finite 200 0\<rparr>, data = \<lparr>label = ''End''\<rparr>\<rparr>]"

definition initialEdges :: "Edge list" where
  "initialEdges =
     [\<lparr>edge_id = ''e1-2'', source = ''1'', target = ''2'',
       sourceHandle = None, targetHandle = None, edge_type = None\<rparr>,
      \<lparr>edge_id = ''e2-3'', source = ''2'', target = ''3'',
       sourceHandle = None, targetHandle = None, edge_type = None\<rparr>]"

section \<open>Adding a node\<close>

text \<open>
  \<open>addNode\<close> reads \<open>nodes\<close> from the render it was created in, the clock (\<open>now\<close>, the
  milliseconds since the epoch returned by \<open>Date.now()\<close>) and two results of
  \<open>Math.random()\<close>, \<open>r1\<close> for \<open>x\<close> and \<open>r2\<close> for \<open>y\<close>. It hands \<open>setNodes\<close> an updater,
  which React applies to the list \<open>nds\<close> current at that time.
\<close>

definition newNode :: "Node list \<Rightarrow> int \<Rightarrow> number \<Rightarrow> number \<Rightarrow> Node" where
  "newNode nodes now r1 r2 =
     \<lparr>node_id = string_of_int now,
      node_type = ''custom'',
      position = \<lparr>pos_x = fmul r1 (Finite 500 0), pos_y = fmul r2 (Finite 500 0)\<rparr>,
      data = \<lparr>label = ''Step '' @ string_of_nat (length nodes + 1)\<rparr>\<rparr>"

definition addNode :: "Node list \<Rightarrow> int \<Rightarrow> number \<Rightarrow> number \<Rightarrow> Node list \<Rightarrow> Node list" where
  "addNode nodes now r1 r2 nds = nds @ [newNode nodes now r1 r2]"

section \<open>Connecting two handles\<close>

text \<open>
  \<open>onConnect\<close> passes the connection, extended by \<open>type: 'smoothstep'\<close>, and the current
  edge list to \<open>addEdge\<close>. That function is imported from the \<open>reactflow\<close> package
  (line 10 of \<open>page.tsx\<close>) and its code is not part of this repository; the definitions
  \<open>getEdgeId\<close>, \<open>connectionExists\<close> and \<open>addEdge\<close> below follow the behaviour the package
  publishes for it: it returns the list as it is when the source or the target is
  missing, or when the list already holds an edge between the same two nodes and handles,
  and otherwise appends the connection as an edge with a generated identifier.
\<close>

definition falsy :: "string option \<Rightarrow> bool" where
  "falsy h = (case h of None \<Rightarrow> True | Some s \<Rightarrow> s = [])"

definition or_empty :: "string option \<Rightarrow> string" where
  "or_empty h = (case h of None \<Rightarrow> [] | Some s \<Rightarrow> s)"

definition getEdgeId :: "string \<Rightarrow> string option \<Rightarrow> string \<Rightarrow> string option \<Rightarrow> string" where
  "getEdgeId s sh t th = ''reactflow__edge-'' @ s @ or_empty sh @ ''-'' @ t @ or_empty th"

definition connectionExists :: "Edge \<Rightarrow> Edge list \<Rightarrow> bool" where
  "connectionExists edge edges =
     list_ex (\<lambda>el. source el = source edge \<and> target el = target edge \<and>
        (sourceHandle el = sourceHandle edge \<or> (falsy (sourceHandle el) \<and> falsy (sourceHandle edge))) \<and>
        (targetHandle el = targetHandle edge \<or> (falsy (targetHandle el) \<and> falsy (targetHandle edge))))
      edges"

text \<open>
  The edge made of a connection: \<open>{ ...edgeParams, id: getEdgeId(edgeParams) }\<close>, where
  \<open>edgeParams\<close> is the connection with its \<open>type\<close>.
\<close>

definition toEdge :: "Connection \<Rightarrow> string \<Rightarrow> Edge" where
  "toEdge edgeParams type =
     \<lparr>edge_id = getEdgeId (or_empty (c_source edgeParams)) (c_sourceHandle edgeParams)
                  (or_empty (c_target edgeParams)) (c_targetHandle edgeParams),
      source = or_empty (c_source edgeParams),
      target = or_empty (c_target edgeParams),
      sourceHandle = c_sourceHandle edgeParams,
      targetHandle = c_targetHandle edgeParams,
      edge_type = Some type\<rparr>"

definition addEdge :: "Connection \<Rightarrow> string \<Rightarrow> Edge list \<Rightarrow> Edge list" where
  "addEdge edgeParams type edges =
     (if falsy (c_source edgeParams) \<or> falsy (c_target edgeParams) then edges
      else
        let edge = toEdge edgeParams type
        in if connectionExists edge edges then edges else edges @ [edge])"

definition onConnect :: "Connection \<Rightarrow> Edge list \<Rightarrow> Edge list" where
  "onConnect params eds = addEdge params ''smoothstep'' eds"

section \<open>Exporting the canvas\<close>

text \<open>
  A DOM node, as far as the export reads it: its class list, absent on nodes that are
  not elements.
\<close>

record dom_node =
  classList :: "string list option"

record Options =
  backgroundColor :: string
  filter_opt :: "dom_node option \<Rightarrow> bool"

record anchor =
  download :: string
  href :: string

type_synonym error = string

text \<open>
  What \<open>exportAsImage\<close> does to the world outside its own variables: the call of the
  rasteriser \<open>toPng\<close>, the click on the anchor it built (the download), and a line on
  the error console. The promise it returns is resolved, or rejected with the error
  that escaped.
\<close>

datatype effect = ToPng dom_node Options | Click anchor | ConsoleError string error

datatype outcome = Resolved | Rejected error

definition toPng_options :: Options where
  "toPng_options =
     \<lparr>backgroundColor = ''#111827'',
      filter_opt = (\<lambda>node. case node of None \<Rightarrow> True
                     | Some n \<Rightarrow> (case classList n of None \<Rightarrow> True
                          | Some cs \<Rightarrow> \<not> ''react-flow__controls'' \<in> set cs))\<rparr>"

definition createElement_a :: anchor where
  "createElement_a = \<lparr>download = [], href = []\<rparr>"

text \<open>
  \<open>flowRef\<close> is \<open>flowRef.current\<close>; \<open>toPng\<close> is the rasteriser of the \<open>html-to-image\<close>
  package, which yields a data URL (\<open>Inr\<close>) or fails (\<open>Inl\<close>).
\<close>

definition exportAsImage ::
  "dom_node option \<Rightarrow> (dom_node \<Rightarrow> Options \<Rightarrow> error + string) \<Rightarrow> effect list \<times> outcome" where
  "exportAsImage flowRef toPng =
     (case flowRef of
        None \<Rightarrow> ([], Resolved)
      | Some current \<Rightarrow>
          (case toPng current toPng_options of
             Inr dataUrl \<Rightarrow>
               (let link = createElement_a;
                    link = link\<lparr>download := ''flowchart.png''\<rparr>;
                    link = link\<lparr>href := dataUrl\<rparr>
                in ([ToPng current toPng_options, Click link], Resolved))
           | Inl err \<Rightarrow>
               ([ToPng current toPng_options, ConsoleError ''Error exporting image:'' err],
                Resolved)))"

text \<open>The downloads of a trace: the anchors that were clicked, in order.\<close>

fun downloads :: "effect list \<Rightarrow> anchor list" where
  "downloads [] = []"
| "downloads (Click a # es) = a # downloads es"
| "downloads (_ # es) = downloads es"

text \<open>
  An element tagged as a UI control, in the words of the specification: a node whose
  class list holds \<open>react-flow__controls\<close>.
\<close>

definition tagged_as_controls :: "dom_node option \<Rightarrow> bool" where
  "tagged_as_controls node =
     (case node of None \<Rightarrow> False
      | Some n \<Rightarrow> (case classList n of None \<Rightarrow> False
           | Some cs \<Rightarrow> ''react-flow__controls'' \<in> set cs))"

section \<open>The label editor of a node\<close>

text \<open>
  The two \<open>useState\<close> cells of \<open>CustomNode\<close>. \<open>label_state\<close> is the cell \<open>label\<close>; the
  name \<open>label\<close> is the field of \<open>CustomNodeData\<close>.
\<close>

record CustomNode_state =
  isEditing :: bool
  label_state :: string

definition mount :: "CustomNodeData \<Rightarrow> CustomNode_state" where
  "mount d = \<lparr>isEditing = False, label_state = label d\<rparr>"

text \<open>What \<open>CustomNode\<close> renders between its two handles.\<close>

datatype view = Input string | Display string

definition render :: "CustomNodeData \<Rightarrow> CustomNode_state \<Rightarrow> view" where
  "render d s = (if isEditing s then Input (label_state s) else Display (label d))"

datatype event = DoubleClick | Change string | Blur | KeyDown string

text \<open>
  An event reaches a handler only on the element that is rendered: \<open>onDoubleClick\<close> is
  on the displayed label, \<open>onChange\<close>, \<open>onBlur\<close> and \<open>onKeyDown\<close> are on the input.
\<close>

fun handle :: "event \<Rightarrow> CustomNode_state \<Rightarrow> CustomNode_state" where
  "handle DoubleClick s = (if isEditing s then s else s\<lparr>isEditing := True\<rparr>)"
| "handle (Change v) s = (if isEditing s then s\<lparr>label_state := v\<rparr> else s)"
| "handle Blur s = (if isEditing s then s\<lparr>isEditing := False\<rparr> else s)"
| "handle (KeyDown key) s =
     (if isEditing s \<and> key = ''Enter'' then s\<lparr>isEditing := False\<rparr> else s)"

definition handle_all :: "event list \<Rightarrow> CustomNode_state \<Rightarrow> CustomNode_state" where
  "handle_all evs s = foldl (\<lambda>s ev. handle ev s) s evs"

fun is_change :: "event \<Rightarrow> bool" where
  "is_change (Change v) = True"
| "is_change _ = False"

section \<open>The page\<close>

text \<open>
  The state of \<open>FlowchartMaker\<close>: its two lists, and the cells of the \<open>CustomNode\<close>
  mounted for each node identifier (\<open>None\<close> while the node has had no event, when its
  cells still hold their initial values).
\<close>

record app =
  nodes :: "Node list"
  edges :: "Edge list"
  components :: "string \<Rightarrow> CustomNode_state option"

definition initial :: app where
  "initial = \<lparr>nodes = initialNodes, edges = initialEdges, components = (\<lambda>i. None)\<rparr>"

text \<open>
  The operations of the page's own code. A click on "Add Node" runs the \<open>addNode\<close> of the
  latest render, so the list it reads and the list its updater receives are the same.
  \<open>exportAsImage\<close> calls no state setter.
\<close>

datatype op = AddNode int number number | Connect Connection | NodeEvent string event | Export

definition node_event :: "string \<Rightarrow> event \<Rightarrow> app \<Rightarrow> app" where
  "node_event i ev s =
     (case find (\<lambda>n. node_id n = i) (nodes s) of
        None \<Rightarrow> s
      | Some n \<Rightarrow>
          s\<lparr>components := (components s)
               (i \<mapsto> handle ev (case components s i of None \<Rightarrow> mount (data n) | Some c \<Rightarrow> c))\<rparr>)"

fun step :: "op \<Rightarrow> app \<Rightarrow> app" where
  "step (AddNode now r1 r2) s = s\<lparr>nodes := addNode (nodes s) now r1 r2 (nodes s)\<rparr>"
| "step (Connect params) s = s\<lparr>edges := onConnect params (edges s)\<rparr>"
| "step (NodeEvent i ev) s = node_event i ev s"
| "step Export s = s"

definition run :: "op list \<Rightarrow> app \<Rightarrow> app" where
  "run ops s = foldl (\<lambda>s c. step c s) s ops"

fun timestamps :: "op list \<Rightarrow> int list" where
  "timestamps [] = []"
| "timestamps (AddNode now r1 r2 # ops) = now # timestamps ops"
| "timestamps (_ # ops) = timestamps ops"

section \<open>Facts about Numbers\<close>

lemma bit_length_lower: "0 < n \<Longrightarrow> 2 ^ (bit_length n - 1) \<le> n"
proof (induction n rule: bit_length.induct)
  case (1 n)
  show ?case
  proof (cases "n div 2 = 0")
    case True
    with 1(2) have "n = 1" by linarith
    then show ?thesis by (simp add: bit_length.simps)
  next
    case False
    with 1 have ih: "2 ^ (bit_length (n div 2) - 1) \<le> n div 2" by simp
    from False have "0 < bit_length (n div 2)" by (subst bit_length.simps) simp
    then have "bit_length n - 1 = Suc (bit_length (n div 2) - 1)"
      using 1(2) by (subst bit_length.simps) simp
    with ih show ?thesis by simp
  qed
qed

lemma bit_length_le: "n < 2 ^ j \<Longrightarrow> bit_length n \<le> j"
proof (rule ccontr)
  assume lt: "n < 2 ^ j" and "\<not> bit_length n \<le> j"
  then have j: "j \<le> bit_length n - 1" by simp
  show False
  proof (cases "n = 0")
    case True
    with \<open>\<not> bit_length n \<le> j\<close> show False by (simp add: bit_length.simps)
  next
    case False
    then have "(2::nat) ^ (bit_length n - 1) \<le> n" using bit_length_lower [of n] by simp
    moreover have "(2::nat) ^ j \<le> 2 ^ (bit_length n - 1)" using j by (simp add: power_increasing)
    ultimately show False using lt by linarith
  qed
qed

text \<open>
  Rounding stays below an integer \<open>N\<close> when the exact quotient is below \<open>N - 1/2\<close>.
\<close>

lemma round_half_even_less:
  assumes "2 * m + 2 ^ k < 2 * N * 2 ^ k" and "0 < k"
  shows "round_half_even m k < N"
proof -
  define q where "q = m div 2 ^ k"
  define r where "r = m mod 2 ^ k"
  have m: "m = q * 2 ^ k + r" unfolding q_def r_def by (rule div_mult_mod_eq [symmetric])
  have pk: "(2::nat) ^ k = 2 * 2 ^ (k - 1)" using assms(2) by (cases k) simp_all
  have q_lt: "q < N"
  proof (rule ccontr)
    assume "\<not> q < N"
    then have "N * 2 ^ k \<le> q * 2 ^ k" by simp
    with m assms(1) show False by (simp add: algebra_simps)
  qed
  have up: "q + 1 < N" if "2 ^ (k - 1) \<le> r"
  proof (rule ccontr)
    assume "\<not> q + 1 < N"
    then have "N \<le> q + 1" by simp
    then have "N * 2 ^ k \<le> (q + 1) * 2 ^ k" by (rule mult_le_mono1)
    then have "2 * N * 2 ^ k \<le> 2 * q * 2 ^ k + 2 * 2 ^ k" by (simp add: algebra_simps)
    moreover have "2 * q * 2 ^ k + 2 * 2 ^ k \<le> 2 * m + 2 ^ k"
      using that m pk by (simp add: algebra_simps)
    ultimately show False using assms(1) by linarith
  qed
  show ?thesis
    unfolding round_half_even_def Let_def q_def [symmetric] r_def [symmetric]
    using q_lt up by auto
qed

lemma val_neg_exp: "val q (- int n) = of_nat q / 2 ^ n"
  by (simp add: val_def power_int_minus_divide)

lemma val_nonneg: "0 \<le> val q e"
  by (simp add: val_def)

lemma val_carry: "val (2 ^ 52) (e + 1) = val (2 ^ 53) e"
  by (simp add: val_def power_int_add_1)

lemma pack_in_range:
  assumes "lo \<le> val q e" and "val q e < hi" and "hi \<le> power_int 2 1024"
  shows "in_range lo hi (pack q e)"
proof (cases "q = 2 ^ 53")
  case True
  with assms val_carry [of e] show ?thesis by (simp add: pack_def)
next
  case False
  with assms show ?thesis by (simp add: pack_def)
qed

text \<open>
  The product of a binary64 value below 1 with 500 is below 500 after rounding too: the
  largest such value is \<open>1 - 2^-53\<close>, its exact product lies less than half a unit in
  the last place above \<open>500 - 2^-44\<close>, and rounding takes it there.
\<close>

lemma fmul_500_in_range:
  assumes m: "m < 2 ^ 53" and e: "- 1074 \<le> e" and lt1: "val m e < 1"
  shows "in_range 0 500 (fmul (Finite m e) (Finite 500 0))"
proof (cases "m = 0")
  case True
  have "bit_length 0 = 0" by (simp add: bit_length.simps)
  with True e show ?thesis
    by (simp add: round_double_def Let_def max_def pack_in_range val_def)
next
  case False
  have eneg: "e < 0"
  proof (rule ccontr)
    assume "\<not> e < 0"
    then have "(1::rat) \<le> power_int 2 e" by simp
    moreover have "(1::rat) \<le> of_nat m" using False by simp
    ultimately have "(1::rat) * 1 \<le> of_nat m * power_int 2 e"
      by (intro mult_mono) simp_all
    with lt1 show False by (simp add: val_def)
  qed
  define n where "n = nat (- e)"
  have en: "e = - int n" using eneg by (simp add: n_def)
  have "(of_nat m :: rat) / 2 ^ n < 1" using lt1 by (simp add: en val_neg_exp)
  then have "(of_nat m :: rat) < 2 ^ n" by (simp add: divide_less_eq)
  then have "(of_nat m :: rat) < of_nat (2 ^ n)" by simp
  then have mn: "m < 2 ^ n" by (simp only: of_nat_less_iff)
  define M where "M = m * 500"
  define L where "L = bit_length M"
  have Mpos: "0 < M" using False by (simp add: M_def)
  have Mn: "M < 500 * 2 ^ n" using mn by (simp add: M_def)
  have exact_val: "val M e = 500 * val m e" by (simp add: val_def M_def)
  show ?thesis
  proof (cases "L \<le> 53")
    case True
    have "1074 + e \<ge> 0" using e by simp
    then have k: "max (int L - 53) (- 1074 - e) \<le> 0" using True by simp
    have "in_range 0 500 (pack M e)"
      using lt1 val_nonneg [of m e] by (intro pack_in_range) (simp_all add: exact_val)
    with k show ?thesis by (simp add: round_double_def Let_def M_def [symmetric] L_def [symmetric])
  next
    case False
    define k where "k = L - 53"
    have kpos: "0 < k" using False by (simp add: k_def)
    have kmax: "max (int L - 53) (- 1074 - e) = int k" using False e by (simp add: k_def)
    have low: "2 ^ (L - 1) \<le> M" unfolding L_def using Mpos by (rule bit_length_lower)
    have "M < 500 * 2 ^ 53" using m by (simp add: M_def)
    also have "\<dots> < (2::nat) ^ 62" by simp
    finally have "L \<le> 62" unfolding L_def by (rule bit_length_le)
    then have k9: "k \<le> 9" by (simp add: k_def)
    have "(500::nat) * 2 ^ n < 2 ^ 9 * 2 ^ n" by simp
    with Mn low have "(2::nat) ^ (L - 1) < 2 ^ (n + 9)" by (simp add: power_add mult.commute)
    then have "L - 1 < n + 9" by (simp only: power_strict_increasing_iff)
    then have kn: "k + 44 \<le> n" using False by (simp add: k_def)
    define N :: nat where "N = 500 * 2 ^ (n - k)"
    have split: "(2::nat) ^ n = 2 ^ (n - k) * 2 ^ k"
      using kn by (simp add: power_add [symmetric])
    have "(2::nat) ^ k \<le> 2 ^ 9" using k9 by (intro power_increasing) simp_all
    then have pk: "(2::nat) ^ k \<le> 512" by simp
    have "Suc m \<le> 2 ^ n" using mn by simp
    then have "1000 * Suc m \<le> 1000 * 2 ^ n" by (rule mult_le_mono2)
    then have "2 * M + 1000 \<le> 1000 * 2 ^ n" by (simp add: M_def)
    with pk have "2 * M + 2 ^ k < 1000 * 2 ^ n" by linarith
    also have "(1000::nat) * 2 ^ n = 2 * N * 2 ^ k" by (simp add: N_def split)
    finally have q: "round_half_even M k < N" using kpos by (rule round_half_even_less)
    have ek: "e + int k = - int (n - k)" using kn by (simp add: en)
    have "(of_nat (round_half_even M k) :: rat) < of_nat N" using q by (simp only: of_nat_less_iff)
    then have "val (round_half_even M k) (e + int k) < 500"
      by (simp add: ek val_neg_exp N_def divide_less_eq)
    moreover have "0 \<le> val (round_half_even M k) (e + int k)" by (rule val_nonneg)
    ultimately have "in_range 0 500 (pack (round_half_even M k) (e + int k))"
      by (intro pack_in_range) simp_all
    with kmax kpos show ?thesis
      by (simp add: round_double_def Let_def M_def [symmetric] L_def [symmetric])
  qed
qed

lemma random_times_500:
  assumes "Math_random_result r"
  shows "in_range 0 500 (fmul r (Finite 500 0))"
proof (cases r)
  case (Finite m e)
  from assms have "m < 2 ^ 53" and "- 1074 \<le> e" and "val m e < 1"
    unfolding Finite Math_random_result_def by simp_all
  then show ?thesis unfolding Finite by (rule fmul_500_in_range)
next
  case Infinity
  with assms show ?thesis by (simp add: Math_random_result_def)
next
  case NaN
  with assms show ?thesis by (simp add: Math_random_result_def)
qed

text \<open>
  The extreme case, evaluated: \<open>(1 - 2^-53) * 500\<close> needs 62 bits and is rounded down
  to \<open>500 - 2^-44\<close>, the largest binary64 value below 500.
\<close>

lemma largest_random_times_500:
  "fmul (Finite 9007199254740991 (- 53)) (Finite 500 0) = Finite 8796093022207999 (- 44)"
  by (simp add: round_double_def pack_def round_half_even_def bit_length.simps val_def)

section \<open>Facts about the decimal digits\<close>

lemma digit_inj: "a < 10 \<Longrightarrow> b < 10 \<Longrightarrow> digit a = digit b \<Longrightarrow> a = b"
proof -
  assume a: "a < 10" and b: "b < 10" and eq: "digit a = digit b"
  have d: "distinct ''0123456789''" by simp
  have "length ''0123456789'' = 10" by simp
  with a b d eq show "a = b" unfolding digit_def by (simp only: nth_eq_iff_index_eq)
qed

lemma digit_not_minus: "d < 10 \<Longrightarrow> digit d \<noteq> CHR ''-''"
proof -
  assume "d < 10"
  then have "digit d \<in> set ''0123456789''" unfolding digit_def by (intro nth_mem) simp
  then show ?thesis by auto
qed

lemma string_of_nat_nonempty: "string_of_nat n \<noteq> []"
  by (subst string_of_nat.simps) simp

lemma string_of_nat_no_minus: "CHR ''-'' \<notin> set (string_of_nat n)"
proof (induction n rule: string_of_nat.induct)
  case (1 n)
  show ?case
  proof (cases "n < 10")
    case True
    then show ?thesis using digit_not_minus [of n] by (subst string_of_nat.simps) auto
  next
    case False
    have "n mod 10 < 10" by simp
    then have "digit (n mod 10) \<noteq> CHR ''-''" by (rule digit_not_minus)
    with False 1 show ?thesis by (subst string_of_nat.simps) auto
  qed
qed

lemma string_of_nat_inj: "string_of_nat a = string_of_nat b \<Longrightarrow> a = b"
proof (induction a arbitrary: b rule: string_of_nat.induct)
  case (1 a)
  show ?case
  proof (cases "a < 10")
    case a: True
    show ?thesis
    proof (cases "b < 10")
      case True
      with a 1(2) show ?thesis
        by (simp add: string_of_nat.simps [of a] string_of_nat.simps [of b] digit_inj)
    next
      case False
      with a 1(2) string_of_nat_nonempty [of "b div 10"] show ?thesis
        by (simp add: string_of_nat.simps [of a] string_of_nat.simps [of b])
    qed
  next
    case a: False
    show ?thesis
    proof (cases "b < 10")
      case True
      with a 1(2) string_of_nat_nonempty [of "a div 10"] show ?thesis
        by (simp add: string_of_nat.simps [of a] string_of_nat.simps [of b])
    next
      case False
      with a 1(2) have pre: "string_of_nat (a div 10) = string_of_nat (b div 10)"
        and dig: "digit (a mod 10) = digit (b mod 10)"
        by (simp_all add: string_of_nat.simps [of a] string_of_nat.simps [of b])
      from 1(1) [OF a pre] have "a div 10 = b div 10" .
      moreover from dig have "a mod 10 = b mod 10" by (intro digit_inj) simp_all
      ultimately show ?thesis by (metis div_mult_mod_eq)
    qed
  qed
qed

lemma string_of_int_inj: "string_of_int a = string_of_int b \<Longrightarrow> a = b"
proof -
  assume eq: "string_of_int a = string_of_int b"
  have hd_neg: "hd (string_of_int i) = CHR ''-''" if "i < 0" for i
    using that by (simp add: string_of_int_def)
  have hd_pos: "hd (string_of_int i) \<noteq> CHR ''-''" if "\<not> i < 0" for i
  proof -
    have "hd (string_of_nat (nat i)) \<in> set (string_of_nat (nat i))"
      using string_of_nat_nonempty by (intro hd_in_set)
    with string_of_nat_no_minus [of "nat i"] that show ?thesis
      by (auto simp: string_of_int_def)
  qed
  show "a = b"
  proof (cases "a < 0")
    case True
    with eq hd_neg [of a] hd_pos [of b] have "b < 0" by auto
    with True eq have "string_of_nat (nat (- a)) = string_of_nat (nat (- b))"
      by (simp add: string_of_int_def)
    then have "nat (- a) = nat (- b)" by (rule string_of_nat_inj)
    with True \<open>b < 0\<close> show ?thesis by simp
  next
    case False
    with eq hd_neg [of b] hd_pos [of a] have "\<not> b < 0" by auto
    with False eq have "string_of_nat (nat a) = string_of_nat (nat b)"
      by (simp add: string_of_int_def)
    then have "nat a = nat b" by (rule string_of_nat_inj)
    with False \<open>\<not> b < 0\<close> show ?thesis by simp
  qed
qed

section \<open>Adding a node: count, position, label\<close>

lemma length_addNode: "length (addNode ns now r1 r2 nds) = length nds + 1"
  by (simp add: addNode_def)

lemma last_addNode: "last (addNode ns now r1 r2 nds) = newNode ns now r1 r2"
  by (simp add: addNode_def)

text \<open>
  C1. For every current node list (the list \<open>ns\<close> that \<open>addNode\<close> read when it was
  created, and the list \<open>nds\<close> its updater is applied to), the add-node operation
  increases the node count by exactly one, and the position of the new node, the last of
  the list, satisfies \<open>0 \<le> x < 500\<close> and \<open>0 \<le> y < 500\<close>, whatever binary64 values in
  \<open>[0, 1)\<close> the two calls of \<open>Math.random()\<close> returned. The bound is proved on the
  rounded product, not on the exact one.
\<close>

theorem addNode_count_and_bounds:
  assumes "Math_random_result r1" and "Math_random_result r2"
  shows "length (addNode ns now r1 r2 nds) = length nds + 1
       \<and> in_range 0 500 (pos_x (position (last (addNode ns now r1 r2 nds))))
       \<and> in_range 0 500 (pos_y (position (last (addNode ns now r1 r2 nds))))"
proof (intro conjI)
  show "length (addNode ns now r1 r2 nds) = length nds + 1"
    by (rule length_addNode)
  show "in_range 0 500 (pos_x (position (last (addNode ns now r1 r2 nds))))"
    using assms(1) by (simp add: last_addNode newNode_def random_times_500)
  show "in_range 0 500 (pos_y (position (last (addNode ns now r1 r2 nds))))"
    using assms(2) by (simp add: last_addNode newNode_def random_times_500)
qed

text \<open>
  The theorem at the largest binary64 value below 1, \<open>(2^53 - 1) * 2^-53\<close>, for \<open>x\<close>
  and at 0 for \<open>y\<close>, on the seeded list.
\<close>

theorem addNode_count_and_bounds_witness:
  "Math_random_result (Finite 9007199254740991 (- 53))
   \<and> Math_random_result (Finite 0 0)
   \<and> length (addNode initialNodes 1730000000000 (Finite 9007199254740991 (- 53)) (Finite 0 0)
        initialNodes) = length initialNodes + 1
   \<and> in_range 0 500 (pos_x (position (last
        (addNode initialNodes 1730000000000 (Finite 9007199254740991 (- 53)) (Finite 0 0)
           initialNodes))))
   \<and> in_range 0 500 (pos_y (position (last
        (addNode initialNodes 1730000000000 (Finite 9007199254740991 (- 53)) (Finite 0 0)
           initialNodes))))"
proof -
  have h1: "Math_random_result (Finite 9007199254740991 (- 53))"
    by (simp add: Math_random_result_def val_def)
  have h2: "Math_random_result (Finite 0 0)"
    by (simp add: Math_random_result_def val_def)
  from addNode_count_and_bounds [OF h1 h2] h1 h2 show ?thesis by blast
qed

text \<open>
  C2. Starting from the seeded initial state (3 nodes, 2 edges), one invocation of the
  add-node operation yields a state with 4 nodes and 2 edges, and the label of the newly
  appended node is "Step 4", at every clock value and for all random results.
\<close>

theorem addNode_from_initial:
  "length (nodes (step (AddNode now r1 r2) initial)) = 4
   \<and> length (edges (step (AddNode now r1 r2) initial)) = 2
   \<and> label (data (last (nodes (step (AddNode now r1 r2) initial)))) = ''Step 4''"
  by (simp add: initial_def initialNodes_def initialEdges_def addNode_def newNode_def
      string_of_nat.simps digit_def)

section \<open>Connecting: what the edge list becomes\<close>

lemma addEdge_cases:
  "addEdge params ty eds = eds \<or> addEdge params ty eds = eds @ [toEdge params ty]"
  by (simp add: addEdge_def Let_def)

text \<open>
  C3, as amended. For every edge list and every connection whose source and target are
  present and not empty, the edge made of the connection has that source and that
  target and the type \<open>smoothstep\<close>; when the list holds no edge between the same two
  nodes and handles, the connect operation appends exactly this one edge and the edge count
  increases by exactly one; when it holds one, the list is returned as it is.
\<close>

theorem onConnect_appends_unless_connected:
  assumes "c_source params = Some s" and "c_target params = Some t"
    and "s \<noteq> []" and "t \<noteq> []"
  shows "source (toEdge params ''smoothstep'') = s
       \<and> target (toEdge params ''smoothstep'') = t
       \<and> edge_type (toEdge params ''smoothstep'') = Some ''smoothstep''
       \<and> onConnect params eds =
           (if connectionExists (toEdge params ''smoothstep'') eds then eds
            else eds @ [toEdge params ''smoothstep''])
       \<and> length (onConnect params eds) =
           (if connectionExists (toEdge params ''smoothstep'') eds then length eds
            else length eds + 1)"
  using assms by (simp add: onConnect_def addEdge_def toEdge_def falsy_def or_empty_def Let_def)

text \<open>The theorem on the seeded edges, for a connection from node 1 to node 3.\<close>

theorem onConnect_appends_unless_connected_witness:
  "c_source \<lparr>c_source = Some ''1'', c_target = Some ''3'', c_sourceHandle = None,
      c_targetHandle = None\<rparr> = Some ''1''
   \<and> c_target \<lparr>c_source = Some ''1'', c_target = Some ''3'', c_sourceHandle = None,
      c_targetHandle = None\<rparr> = Some ''3''
   \<and> ''1'' \<noteq> [] \<and> ''3'' \<noteq> []
   \<and> onConnect \<lparr>c_source = Some ''1'', c_target = Some ''3'', c_sourceHandle = None,
        c_targetHandle = None\<rparr> initialEdges =
      initialEdges @
        [\<lparr>edge_id = ''reactflow__edge-1-3'', source = ''1'', target = ''3'',
          sourceHandle = None, targetHandle = None, edge_type = Some ''smoothstep''\<rparr>]
   \<and> length (onConnect \<lparr>c_source = Some ''1'', c_target = Some ''3'', c_sourceHandle = None,
        c_targetHandle = None\<rparr> initialEdges) = 3"
  using onConnect_appends_unless_connected
    [of "\<lparr>c_source = Some ''1'', c_target = Some ''3'', c_sourceHandle = None,
          c_targetHandle = None\<rparr>" "''1''" "''3''" initialEdges]
  by (simp add: toEdge_def connectionExists_def initialEdges_def getEdgeId_def or_empty_def
      falsy_def)

text \<open>
  C3 as stated fails: nodes 1 and 2 exist and are connected in the seeded state; a
  connection drawn from the handle of node 1 to the handle of node 2 leaves the two
  seeded edges as they are, so the edge count does not increase.
\<close>

theorem onConnect_connected_counterexample:
  "''1'' \<in> set (map node_id initialNodes)
   \<and> ''2'' \<in> set (map node_id initialNodes)
   \<and> onConnect \<lparr>c_source = Some ''1'', c_target = Some ''2'', c_sourceHandle = None,
        c_targetHandle = None\<rparr> initialEdges = initialEdges
   \<and> length (onConnect \<lparr>c_source = Some ''1'', c_target = Some ''2'', c_sourceHandle = None,
        c_targetHandle = None\<rparr> initialEdges) \<noteq> length initialEdges + 1"
  by (simp add: onConnect_def addEdge_def toEdge_def connectionExists_def initialEdges_def
      initialNodes_def getEdgeId_def or_empty_def falsy_def Let_def)

section \<open>Exporting: the three paths\<close>

text \<open>
  C4. When the canvas reference is unavailable (\<open>flowRef.current\<close> is \<open>null\<close>), the
  export operation returns without any side effect: the rasteriser is not called, nothing
  is downloaded or logged, and the promise is resolved, not rejected.
\<close>

theorem exportAsImage_without_canvas:
  "exportAsImage None toPng = ([], Resolved)"
  by (simp add: exportAsImage_def)

text \<open>
  C5. For every failure of the rasterisation step, the export operation catches the error
  and writes it to the error console; besides the failed call of the rasteriser this is
  all it does, so there is no download and nothing is shown to the user, and the promise
  is resolved: the error does not reach the caller.
\<close>

theorem exportAsImage_failure_logged:
  assumes "toPng current toPng_options = Inl err"
  shows "exportAsImage (Some current) toPng =
           ([ToPng current toPng_options, ConsoleError ''Error exporting image:'' err], Resolved)
       \<and> downloads (fst (exportAsImage (Some current) toPng)) = []"
  using assms by (simp add: exportAsImage_def)

theorem exportAsImage_failure_logged_witness:
  "(\<lambda>node options. Inl ''SecurityError'' :: error + string)
      \<lparr>classList = Some [''h-[600px]'', ''border'']\<rparr> toPng_options = Inl ''SecurityError''
   \<and> exportAsImage (Some \<lparr>classList = Some [''h-[600px]'', ''border'']\<rparr>)
        (\<lambda>node options. Inl ''SecurityError'') =
      ([ToPng \<lparr>classList = Some [''h-[600px]'', ''border'']\<rparr> toPng_options,
        ConsoleError ''Error exporting image:'' ''SecurityError''], Resolved)
   \<and> downloads (fst (exportAsImage (Some \<lparr>classList = Some [''h-[600px]'', ''border'']\<rparr>)
        (\<lambda>node options. Inl ''SecurityError''))) = []"
  using exportAsImage_failure_logged
    [of "\<lambda>node options. Inl ''SecurityError''"
        "\<lparr>classList = Some [''h-[600px]'', ''border'']\<rparr>" "''SecurityError''"]
  by simp

lemma filter_opt_toPng_options:
  "filter_opt toPng_options node = (\<not> tagged_as_controls node)"
  by (simp add: toPng_options_def tagged_as_controls_def split: option.splits)

text \<open>
  C6. On successful rasterisation the export operation performs exactly one download,
  of the data URL under the fixed file name \<open>flowchart.png\<close>; the rasteriser was called
  once, on the canvas, with the fixed background colour \<open>#111827\<close> and with a filter that
  keeps a node exactly when it is not tagged as a UI control (class
  \<open>react-flow__controls\<close>).
\<close>

theorem exportAsImage_success_downloads_once:
  assumes "toPng current toPng_options = Inr dataUrl"
  shows "exportAsImage (Some current) toPng =
           ([ToPng current toPng_options,
             Click \<lparr>download = ''flowchart.png'', href = dataUrl\<rparr>], Resolved)
       \<and> downloads (fst (exportAsImage (Some current) toPng)) =
           [\<lparr>download = ''flowchart.png'', href = dataUrl\<rparr>]
       \<and> backgroundColor toPng_options = ''#111827''
       \<and> (\<forall>node. filter_opt toPng_options node = (\<not> tagged_as_controls node))"
  using assms
  by (simp add: exportAsImage_def createElement_a_def filter_opt_toPng_options)
    (simp add: toPng_options_def)

theorem exportAsImage_success_downloads_once_witness:
  "(\<lambda>node options. Inr ''data:image/png;base64,iVBORw0KGgo='' :: error + string)
      \<lparr>classList = Some [''h-[600px]'', ''border'']\<rparr> toPng_options =
      Inr ''data:image/png;base64,iVBORw0KGgo=''
   \<and> downloads (fst (exportAsImage (Some \<lparr>classList = Some [''h-[600px]'', ''border'']\<rparr>)
        (\<lambda>node options. Inr ''data:image/png;base64,iVBORw0KGgo=''))) =
      [\<lparr>download = ''flowchart.png'', href = ''data:image/png;base64,iVBORw0KGgo=''\<rparr>]
   \<and> filter_opt toPng_options (Some \<lparr>classList = Some [''react-flow__panel'',
        ''react-flow__controls'']\<rparr>) = False
   \<and> filter_opt toPng_options (Some \<lparr>classList = Some [''react-flow__node'']\<rparr>) = True"
  using exportAsImage_success_downloads_once
    [of "\<lambda>node options. Inr ''data:image/png;base64,iVBORw0KGgo=''"
        "\<lparr>classList = Some [''h-[600px]'', ''border'']\<rparr>"
        "''data:image/png;base64,iVBORw0KGgo=''"]
  by (simp add: tagged_as_controls_def)

section \<open>The label editor: toggling\<close>

lemma handle_keeps_label_state:
  "\<not> is_change ev \<Longrightarrow> label_state (handle ev s) = label_state s"
  by (cases ev) simp_all

lemma handle_all_keeps_label_state:
  "\<not> list_ex is_change evs \<Longrightarrow> label_state (handle_all evs s) = label_state s"
  unfolding handle_all_def
  by (induction evs arbitrary: s) (simp_all add: handle_keeps_label_state)

text \<open>
  What holds of the toggle in every state: a double click on the displayed label enters
  the edit mode; losing focus or pressing Enter leaves it, and the node then displays the
  label of its data.
\<close>

lemma double_click_enters_edit_mode:
  "\<not> isEditing s \<Longrightarrow> isEditing (handle DoubleClick s)"
  by simp

lemma blur_or_enter_leaves_edit_mode:
  assumes "isEditing s"
  shows "render d (handle Blur s) = Display (label d)"
    and "render d (handle (KeyDown ''Enter'') s) = Display (label d)"
  using assms by (simp_all add: render_def)

text \<open>
  The input is seeded from the cell \<open>label\<close>, never from the data the node is rendered
  with: until the first change event it holds the label the node was mounted with
  (\<open>d\<close>), whatever label the node has now (\<open>d'\<close>).
\<close>

lemma seed_is_mount_label:
  assumes "\<not> list_ex is_change evs" and "\<not> isEditing (handle_all evs (mount d))"
  shows "render d' (handle DoubleClick (handle_all evs (mount d))) = Input (label d)"
proof -
  have "label_state (handle_all evs (mount d)) = label d"
    using assms(1) by (simp add: handle_all_keeps_label_state mount_def)
  with assms(2) show ?thesis by (simp add: render_def)
qed

text \<open>
  C7. The claim asks that a double click on the displayed label of a node opens the text
  input seeded with the current label of the node. The code does not do so on the node
  "Start" once the text "Begin" was typed and the input lost focus: the node displays
  "Start" again, its current label, and a double click on this displayed label opens
  the input with "Begin". The display reads \<open>data.label\<close>, the input reads the cell
  \<open>label\<close>, and nothing brings the two together again.
\<close>

theorem label_editor_reopens_with_typed_text:
  "render \<lparr>label = ''Start''\<rparr>
      (handle_all [DoubleClick, Change ''Begin'', Blur] (mount \<lparr>label = ''Start''\<rparr>))
     = Display ''Start''
   \<and> render \<lparr>label = ''Start''\<rparr>
      (handle_all [DoubleClick, Change ''Begin'', Blur, DoubleClick] (mount \<lparr>label = ''Start''\<rparr>))
     = Input ''Begin''
   \<and> render \<lparr>label = ''Start''\<rparr>
      (handle_all [DoubleClick, Change ''Begin'', Blur, DoubleClick] (mount \<lparr>label = ''Start''\<rparr>))
     \<noteq> Input (label \<lparr>label = ''Start''\<rparr>)"
  by (simp add: handle_all_def mount_def render_def)

section \<open>The label editor and the node list\<close>

lemma node_event_frame:
  "nodes (node_event i ev s) = nodes s \<and> edges (node_event i ev s) = edges s"
  by (simp add: node_event_def split: option.splits)

text \<open>
  C8. The operations of the inline label editor (entering edit mode, changing the input
  string, confirming with Enter, losing focus), on any nodes and in any order, leave the
  shared node list as it is, and the edge list too: no label stored in \<open>nodes\<close> is ever
  modified by the editor.
\<close>

theorem label_editing_leaves_node_list:
  "nodes (run (map (\<lambda>(i, ev). NodeEvent i ev) ievs) s) = nodes s
   \<and> edges (run (map (\<lambda>(i, ev). NodeEvent i ev) ievs) s) = edges s
   \<and> map (\<lambda>n. label (data n)) (nodes (run (map (\<lambda>(i, ev). NodeEvent i ev) ievs) s)) =
       map (\<lambda>n. label (data n)) (nodes s)"
proof -
  have "nodes (run (map (\<lambda>(i, ev). NodeEvent i ev) ievs) s) = nodes s
      \<and> edges (run (map (\<lambda>(i, ev). NodeEvent i ev) ievs) s) = edges s"
    unfolding run_def
  proof (induction ievs arbitrary: s)
    case Nil
    show ?case by simp
  next
    case (Cons p ievs)
    obtain i ev where p: "p = (i, ev)" by (cases p)
    show ?case using Cons [of "node_event i ev s"] by (simp add: p node_event_frame)
  qed
  then show ?thesis by simp
qed

text \<open>
  The theorem on the seeded state: the text "Begin" is typed into node 1 and confirmed.
  The editor of node 1 holds "Begin"; the node list still holds "Start".
\<close>

theorem label_editing_leaves_node_list_witness:
  "nodes (run (map (\<lambda>(i, ev). NodeEvent i ev)
        [(''1'', DoubleClick), (''1'', Change ''Begin''), (''1'', KeyDown ''Enter'')]) initial)
     = initialNodes
   \<and> map (\<lambda>n. label (data n)) (nodes (run (map (\<lambda>(i, ev). NodeEvent i ev)
        [(''1'', DoubleClick), (''1'', Change ''Begin''), (''1'', KeyDown ''Enter'')]) initial))
     = [''Start'', ''Process'', ''End'']
   \<and> components (run (map (\<lambda>(i, ev). NodeEvent i ev)
        [(''1'', DoubleClick), (''1'', Change ''Begin''), (''1'', KeyDown ''Enter'')]) initial) ''1''
     = Some \<lparr>isEditing = False, label_state = ''Begin''\<rparr>"
  using label_editing_leaves_node_list
    [of "[(''1'', DoubleClick), (''1'', Change ''Begin''), (''1'', KeyDown ''Enter'')]" initial]
  by (simp add: run_def node_event_def initial_def initialNodes_def mount_def)

section \<open>Node identifiers\<close>

lemma node_ids_step:
  "map node_id (nodes (step c s)) = map node_id (nodes s) @ map string_of_int (timestamps [c])"
  by (cases c) (simp_all add: addNode_def newNode_def node_event_frame)

lemma timestamps_Cons: "timestamps (c # ops) = timestamps [c] @ timestamps ops"
  by (cases c) simp_all

lemma node_ids_run:
  "map node_id (nodes (run ops s)) = map node_id (nodes s) @ map string_of_int (timestamps ops)"
  unfolding run_def
proof (induction ops arbitrary: s)
  case Nil
  show ?case by simp
next
  case (Cons c ops)
  have "map node_id (nodes (foldl (\<lambda>s c. step c s) (step c s) ops)) =
      map node_id (nodes (step c s)) @ map string_of_int (timestamps ops)"
    by (rule Cons)
  then show ?case
    by (simp add: node_ids_step timestamps_Cons [of c ops])
qed

lemma seeded_node_ids: "map node_id (nodes initial) = map string_of_int [1, 2, 3]"
  by (simp add: initial_def initialNodes_def string_of_int_def string_of_nat.simps digit_def)

lemma inj_string_of_int: "inj_on string_of_int A"
  by (rule inj_onI) (rule string_of_int_inj)

text \<open>
  The identifiers are the digits of 1, 2 and 3 and of the clock values read by the
  add-node invocations, so they are pairwise distinct exactly when these numbers are.
\<close>

lemma node_ids_distinct_iff:
  "distinct (map node_id (nodes (run ops initial))) = distinct ([1, 2, 3] @ timestamps ops)"
proof -
  have "map node_id (nodes (run ops initial)) = map string_of_int ([1, 2, 3] @ timestamps ops)"
    by (simp only: node_ids_run seeded_node_ids map_append)
  then show ?thesis
    by (simp only: distinct_map inj_string_of_int simp_thms)
qed

text \<open>
  C9. The claim asks that all node identifiers are pairwise distinct in every state
  reached from the seeded initial state. The code takes the identifier of a new node from
  the clock, which counts milliseconds, and checks it against nothing: two add-node
  invocations that read the same clock value give their two nodes the same identifier.
\<close>

theorem addNode_same_millisecond_same_id:
  "map node_id (nodes (run
      [AddNode 1730000000000 (Finite 1 (- 1)) (Finite 1 (- 2)),
       AddNode 1730000000000 (Finite 3 (- 2)) (Finite 0 0)] initial))
     = [''1'', ''2'', ''3'', ''1730000000000'', ''1730000000000'']
   \<and> \<not> distinct (map node_id (nodes (run
      [AddNode 1730000000000 (Finite 1 (- 1)) (Finite 1 (- 2)),
       AddNode 1730000000000 (Finite 3 (- 2)) (Finite 0 0)] initial)))"
  by (simp add: node_ids_run)
    (simp add: initial_def initialNodes_def string_of_int_def string_of_nat.simps digit_def)

section \<open>What the two operations leave alone\<close>

text \<open>
  C10. The add-node operation leaves the edge list unchanged and appends to the node
  list, so every node that was there is there unchanged and in the same place; the
  connect operation leaves the node list unchanged and keeps every edge that was there,
  unchanged and in the same place.
\<close>

theorem addNode_onConnect_frame:
  "edges (step (AddNode now r1 r2) s) = edges s
   \<and> nodes (step (AddNode now r1 r2) s) = nodes s @ [newNode (nodes s) now r1 r2]
   \<and> take (length (nodes s)) (nodes (step (AddNode now r1 r2) s)) = nodes s
   \<and> nodes (step (Connect params) s) = nodes s
   \<and> take (length (edges s)) (edges (step (Connect params) s)) = edges s"
proof -
  have "take (length (edges s)) (onConnect params (edges s)) = edges s"
    using addEdge_cases [of params "''smoothstep''" "edges s"]
    by (auto simp: onConnect_def)
  then show ?thesis by (simp add: addNode_def)
qed

end
